theory Spec2Isabelle
  imports Main "HOL-Library.Finite_Map"
begin

section \<open>Detection results of a talisman run (detector/detection\_results.go)\<close>

text \<open>
  A shallow embedding of \<^verbatim>\<open>detection_results.go\<close>. Go strings are byte sequences
  (\<open>len\<close> and slicing count bytes), so a Go \<open>string\<close> is a \<^typ>\<open>string\<close>; a slice is a
  list (the \<open>nil\<close> slice is the empty list); a Go map is a finite map. A method with the
  pointer receiver \<open>r\<close> takes the store as an argument; \<open>Fail\<close> and \<open>Ignore\<close>, which
  assign to the maps of \<open>r\<close>, return the store after the call.
\<close>

subsection \<open>Data\<close>

text \<open>\<open>git_repo.FilePath\<close> is declared in another package as a string type; the code
  converts it with \<open>string(filePath)\<close>.\<close>

type_synonym FilePath = string

record FailureData =
  Message :: "string list"
  Commits :: "string list"

record DetectionResults =
  Failures :: "(FilePath, FailureData list) fmap"
  ignores :: "(FilePath, string list) fmap"

text \<open>\<open>len(m)\<close> of a Go map: the number of keys.\<close>

definition len_map :: "('k, 'v) fmap \<Rightarrow> nat" where
  "len_map m = fcard (fmdom m)"

text \<open>The one-valued index expression \<open>m[k]\<close> on a map of slices: an absent key gives
  the zero value of the element type, the \<open>nil\<close> slice, and the map is not changed. The
  two-valued form \<open>v, ok := m[k]\<close> is \<^const>\<open>fmlookup\<close>.\<close>

definition index_map :: "('k, 'v list) fmap \<Rightarrow> 'k \<Rightarrow> 'v list" where
  "index_map m k = (case fmlookup m k of None \<Rightarrow> [] | Some v \<Rightarrow> v)"

text \<open>\<open>for k := range m\<close> visits every key of the map once, in an order that Go leaves
  unspecified and that may differ from one loop to the next. A function that ranges over
  a map takes the order of that loop as an argument; \<open>range_order m ks\<close> says that \<open>ks\<close>
  is such an order.\<close>

definition range_order :: "('k, 'v) fmap \<Rightarrow> 'k list \<Rightarrow> bool" where
  "range_order m ks = (distinct ks \<and> set ks = fmdom' m)"

subsection \<open>The result store\<close>

definition NewFaulureData :: "string list \<Rightarrow> string list \<Rightarrow> FailureData" where
  "NewFaulureData message commits = \<lparr>Message = message, Commits = commits\<rparr>"

definition NewDetectionResults :: DetectionResults where
  "NewDetectionResults = \<lparr>Failures = fmempty, ignores = fmempty\<rparr>"

definition Fail :: "FilePath \<Rightarrow> string \<Rightarrow> string list \<Rightarrow> DetectionResults \<Rightarrow> DetectionResults" where
  "Fail filePath message commits r =
     (let failureData = NewFaulureData [message] commits in
      case fmlookup (Failures r) filePath of
        None \<Rightarrow> r\<lparr>Failures := fmupd filePath [failureData] (Failures r)\<rparr>
      | Some errors \<Rightarrow> r\<lparr>Failures := fmupd filePath (errors @ [failureData]) (Failures r)\<rparr>)"

definition Ignore :: "FilePath \<Rightarrow> string \<Rightarrow> DetectionResults \<Rightarrow> DetectionResults" where
  "Ignore filePath detector r =
     (case fmlookup (ignores r) filePath of
        None \<Rightarrow> r\<lparr>ignores := fmupd filePath [detector] (ignores r)\<rparr>
      | Some ignores' \<Rightarrow> r\<lparr>ignores := fmupd filePath (ignores' @ [detector]) (ignores r)\<rparr>)"

definition HasFailures :: "DetectionResults \<Rightarrow> bool" where
  "HasFailures r = (0 < len_map (Failures r))"

definition HasIgnores :: "DetectionResults \<Rightarrow> bool" where
  "HasIgnores r = (0 < len_map (ignores r))"

definition Successful :: "DetectionResults \<Rightarrow> bool" where
  "Successful r = (\<not> HasFailures r)"

text \<open>\<open>GetFailures\<close> returns \<open>r.Failures[fileName]\<close>. Its receiver is a pointer, as
  that of \<open>Fail\<close> is: the second component is the store after the call.\<close>

definition GetFailures :: "FilePath \<Rightarrow> DetectionResults \<Rightarrow> FailureData list \<times> DetectionResults" where
  "GetFailures fileName r = (index_map (Failures r) fileName, r)"

subsection \<open>Runs of detector calls\<close>

text \<open>The calls by which detectors change a store, and a run of them in call order.\<close>

datatype detector_call =
    FailCall FilePath string "string list"
  | IgnoreCall FilePath string

fun apply_call :: "DetectionResults \<Rightarrow> detector_call \<Rightarrow> DetectionResults" where
  "apply_call r (FailCall filePath message commits) = Fail filePath message commits r"
| "apply_call r (IgnoreCall filePath detector) = Ignore filePath detector r"

definition run_calls :: "detector_call list \<Rightarrow> DetectionResults \<Rightarrow> DetectionResults" where
  "run_calls calls r = foldl apply_call r calls"

fun is_FailCall :: "detector_call \<Rightarrow> bool" where
  "is_FailCall (FailCall _ _ _) = True"
| "is_FailCall (IgnoreCall _ _) = False"

fun fails_on :: "FilePath \<Rightarrow> detector_call \<Rightarrow> bool" where
  "fails_on p (FailCall filePath _ _) = (filePath = p)"
| "fails_on p (IgnoreCall _ _) = False"

fun ignores_on :: "FilePath \<Rightarrow> detector_call \<Rightarrow> bool" where
  "ignores_on p (IgnoreCall filePath _) = (filePath = p)"
| "ignores_on p (FailCall _ _ _) = False"

subsection \<open>Collaborators of the report\<close>

text \<open>Modelled from the spec: the declarations of \<open>FileIgnoreConfig\<close> and
  \<open>TalismanRCIgnore\<close> are in another file of the package. The code builds the first with
  the positional literal \<open>FileIgnoreConfig{filePath, currentChecksum, []string{}}\<close>, whose
  three fields the spec names \<open>fileName\<close>, \<open>checksum\<close> and \<open>allowedPatterns\<close>, and the
  second with the one-field literal \<open>TalismanRCIgnore{fileIgnoreConfigs}\<close>.\<close>

record FileIgnoreConfig =
  fileName :: string
  checksum :: string
  allowedPatterns :: "string list"

record TalismanRCIgnore =
  fileIgnoreConfigs :: "FileIgnoreConfig list"

text \<open>A Go \<open>error\<close> value of the encoder.\<close>

datatype marshal_error = MarshalError string

text \<open>\<open>CalculateCollectiveHash\<close> (another file of the package) and \<open>yaml.Marshal\<close> (a
  library) are arguments of the functions that call them. \<open>yaml.Marshal\<close> returns the
  bytes and an error, \<open>None\<close> for Go's \<open>nil\<close>.\<close>

type_synonym checksum_fn = "string list \<Rightarrow> string"
type_synonym marshal_fn = "TalismanRCIgnore \<Rightarrow> string \<times> marshal_error option"

text \<open>The writer of the \<open>tablewriter\<close> library is the state its setters build;
  \<open>Render\<close> writes it to the stream it was created on, here \<open>os.Stdout\<close>.\<close>

record table =
  table_header :: "string list"
  table_rowLine :: bool
  table_rows :: "string list list"

definition NewWriter :: table where
  "NewWriter = \<lparr>table_header = [], table_rowLine = False, table_rows = []\<rparr>"

definition SetHeader :: "string list \<Rightarrow> table \<Rightarrow> table" where
  "SetHeader keys t = t\<lparr>table_header := keys\<rparr>"

definition SetRowLine :: "bool \<Rightarrow> table \<Rightarrow> table" where
  "SetRowLine line t = t\<lparr>table_rowLine := line\<rparr>"

definition AppendBulk :: "string list list \<Rightarrow> table \<Rightarrow> table" where
  "AppendBulk rows t = t\<lparr>table_rows := table_rows t @ rows\<rparr>"

text \<open>What a call does beyond returning a value, in the order it happens: text printed
  on standard output, a table rendered on standard output, and the calls of the two
  collaborators with their arguments.\<close>

datatype event =
    Printed string
  | Rendered table
  | HashCalled "string list"
  | MarshalCalled TalismanRCIgnore

definition Printf :: "string \<Rightarrow> event list \<Rightarrow> event list" where
  "Printf s evs = evs @ [Printed s]"

definition Render :: "table \<Rightarrow> event list \<Rightarrow> event list" where
  "Render t evs = evs @ [Rendered t]"

definition call_CalculateCollectiveHash ::
  "checksum_fn \<Rightarrow> string list \<Rightarrow> event list \<Rightarrow> event list \<times> string" where
  "call_CalculateCollectiveHash CalculateCollectiveHash paths evs =
     (evs @ [HashCalled paths], CalculateCollectiveHash paths)"

definition call_Marshal ::
  "marshal_fn \<Rightarrow> TalismanRCIgnore \<Rightarrow> event list \<Rightarrow> event list \<times> string \<times> marshal_error option" where
  "call_Marshal Marshal v evs = (evs @ [MarshalCalled v], Marshal v)"

text \<open>\<open>strings.Join\<close> of the standard library.\<close>

fun strings_Join :: "string list \<Rightarrow> string \<Rightarrow> string" where
  "strings_Join [] sep = []"
| "strings_Join [x] sep = x"
| "strings_Join (x # y # ys) sep = x @ sep @ strings_Join (y # ys) sep"

subsection \<open>The report\<close>

text \<open>The inner loop of \<open>ReportFileFailures\<close>, over the messages of one
  \<open>FailureData\<close>, and the outer loop, over the failures of the path.\<close>

fun ReportFileFailures_messages ::
  "FilePath \<Rightarrow> bool \<Rightarrow> FailureData \<Rightarrow> string list \<Rightarrow> string list list \<Rightarrow> string list list" where
  "ReportFileFailures_messages filePath toBeScanned failureData [] data = data"
| "ReportFileFailures_messages filePath toBeScanned failureData (failureMessage # rest) data =
     (let failureMessage' =
            (if 150 < length failureMessage
             then take 150 failureMessage @ [CHR 0x0A] @ drop 150 failureMessage
             else failureMessage)
      in if toBeScanned
         then ReportFileFailures_messages filePath toBeScanned failureData rest
                (data @ [[filePath, failureMessage',
                          strings_Join (Commits failureData) [CHR 0x0A]]])
         else ReportFileFailures_messages filePath toBeScanned failureData rest
                (data @ [[filePath, failureMessage']]))"

fun ReportFileFailures_failures ::
  "FilePath \<Rightarrow> bool \<Rightarrow> FailureData list \<Rightarrow> string list list \<Rightarrow> string list list" where
  "ReportFileFailures_failures filePath toBeScanned [] data = data"
| "ReportFileFailures_failures filePath toBeScanned (failureData # rest) data =
     ReportFileFailures_failures filePath toBeScanned rest
       (ReportFileFailures_messages filePath toBeScanned failureData (Message failureData) data)"

definition ReportFileFailures :: "DetectionResults \<Rightarrow> FilePath \<Rightarrow> bool \<Rightarrow> string list list" where
  "ReportFileFailures r filePath toBeScanned =
     (let failures = index_map (Failures r) filePath in
      if 0 < length failures
      then ReportFileFailures_failures filePath toBeScanned failures []
      else [])"

text \<open>\<open>unique\<close>: \<open>_, value := keys[entry]\<close> reads whether the key is present.\<close>

fun unique_loop :: "string list \<Rightarrow> (string, bool) fmap \<Rightarrow> string list \<Rightarrow> string list" where
  "unique_loop [] keys list = list"
| "unique_loop (entry # rest) keys list =
     (case fmlookup keys entry of
        None \<Rightarrow> unique_loop rest (fmupd entry True keys) (list @ [entry])
      | Some _ \<Rightarrow> unique_loop rest keys list)"

definition unique :: "string list \<Rightarrow> string list" where
  "unique stringSlice = unique_loop stringSlice fmempty []"

text \<open>\<open>suggestTalismanRC\<close>: the loop over the paths, then the encoder, whose error is
  bound to the blank identifier.\<close>

fun suggestTalismanRC_loop ::
  "checksum_fn \<Rightarrow> string list \<Rightarrow> event list \<Rightarrow> FileIgnoreConfig list
     \<Rightarrow> event list \<times> FileIgnoreConfig list" where
  "suggestTalismanRC_loop CalculateCollectiveHash [] evs configs = (evs, configs)"
| "suggestTalismanRC_loop CalculateCollectiveHash (filePath # rest) evs configs =
     (let (evs', currentChecksum) =
            call_CalculateCollectiveHash CalculateCollectiveHash [filePath] evs;
          fileIgnoreConfig =
            \<lparr>fileName = filePath, checksum = currentChecksum, allowedPatterns = []\<rparr>
      in suggestTalismanRC_loop CalculateCollectiveHash rest evs' (configs @ [fileIgnoreConfig]))"

definition suggestTalismanRC ::
  "checksum_fn \<Rightarrow> marshal_fn \<Rightarrow> string list \<Rightarrow> event list \<Rightarrow> event list \<times> string" where
  "suggestTalismanRC CalculateCollectiveHash Marshal filePaths evs =
     (let (evs', configs) = suggestTalismanRC_loop CalculateCollectiveHash filePaths evs [];
          talismanRcIgnoreConfig = \<lparr>fileIgnoreConfigs = configs\<rparr>;
          (evs'', m, _) = call_Marshal Marshal talismanRcIgnoreConfig evs'
      in (evs'', m))"

text \<open>The two format strings of \<open>Report\<close>. Neither has a formatting verb, so
  \<open>fmt.Printf\<close> and \<open>fmt.Sprintf\<close> give them back as they are; \<open>\x1b\<close> is the byte 27.\<close>

definition report_banner :: string where
  "report_banner =
     [CHR 0x0A, CHR 0x1B] @ ''[1m'' @ [CHR 0x1B] @ ''[31mTalisman Report:''
       @ [CHR 0x1B] @ ''[0m'' @ [CHR 0x1B] @ ''[0m'' @ [CHR 0x0A]"

definition report_note :: string where
  "report_note =
     [CHR 0x0A, CHR 0x1B] @ ''[33mIf you are absolutely sure that you want to ignore the above files from talisman detectors, consider pasting the following format in .talismanrc file in the project root''
       @ [CHR 0x1B] @ ''[0m'' @ [CHR 0x0A]"

text \<open>The two \<open>range\<close> loops of \<open>Report\<close>, each over the order its loop takes.\<close>

fun Report_Failures_loop ::
  "DetectionResults \<Rightarrow> FilePath list \<Rightarrow> string list \<Rightarrow> string list list
     \<Rightarrow> string list \<times> string list list" where
  "Report_Failures_loop r [] filePathsForIgnoresAndFailures data =
     (filePathsForIgnoresAndFailures, data)"
| "Report_Failures_loop r (filePath # rest) filePathsForIgnoresAndFailures data =
     (let toBeScanned = False;
          failureData = ReportFileFailures r filePath toBeScanned
      in Report_Failures_loop r rest (filePathsForIgnoresAndFailures @ [filePath])
           (data @ failureData))"

fun Report_ignores_loop :: "FilePath list \<Rightarrow> string list \<Rightarrow> string list" where
  "Report_ignores_loop [] filePathsForIgnoresAndFailures = filePathsForIgnoresAndFailures"
| "Report_ignores_loop (filePath # rest) filePathsForIgnoresAndFailures =
     Report_ignores_loop rest (filePathsForIgnoresAndFailures @ [filePath])"

text \<open>\<open>Report\<close> returns the events of the call and the returned string.
  \<open>failuresOrder\<close> and \<open>ignoresOrder\<close> are the orders of its two \<open>range\<close> loops.\<close>

definition Report ::
  "checksum_fn \<Rightarrow> marshal_fn \<Rightarrow> FilePath list \<Rightarrow> FilePath list \<Rightarrow> DetectionResults
     \<Rightarrow> event list \<times> string" where
  "Report CalculateCollectiveHash Marshal failuresOrder ignoresOrder r =
     (let result = [];
          table = SetRowLine True (SetHeader [''File'', ''Errors''] NewWriter);
          (paths, data) = Report_Failures_loop r failuresOrder [] [];
          paths' = Report_ignores_loop ignoresOrder paths;
          filePathsForIgnoresAndFailures = unique paths'
      in if 0 < len_map (Failures r)
         then
           let evs = Printf report_banner [];
               evs' = Render (AppendBulk data table) evs;
               result' = result @ report_note;
               (evs'', suggestion) =
                 suggestTalismanRC CalculateCollectiveHash Marshal
                   filePathsForIgnoresAndFailures evs';
               result'' = result' @ suggestion
           in (evs'', result'' @ [CHR 0x0A, CHR 0x0A])
         else ([], result))"

subsection \<open>Concrete collaborators and stores for the examples\<close>

definition example_hash :: checksum_fn where
  "example_hash paths = ''#'' @ concat paths"

definition example_marshal :: marshal_fn where
  "example_marshal v = (concat (map (\<lambda>c. fileName c @ '':'' @ checksum c @ '';'') (fileIgnoreConfigs v)), None)"

definition failing_marshal :: marshal_fn where
  "failing_marshal v = (''partial'', Some (MarshalError ''cannot marshal''))"

definition example_store :: DetectionResults where
  "example_store =
     run_calls [FailCall ''secrets.txt'' ''AWS key detected'' [''abc123''],
                IgnoreCall ''secrets.txt'' ''filename'',
                IgnoreCall ''notes.md'' ''filecontent'',
                FailCall ''secrets.txt'' ''High entropy string'' []]
       NewDetectionResults"

subsection \<open>Notions of the specification\<close>

text \<open>The failure records that the \<open>Fail\<close> calls of a run supply for a path, in call
  order.\<close>

definition failures_recorded :: "FilePath \<Rightarrow> detector_call list \<Rightarrow> FailureData list" where
  "failures_recorded p calls =
     concat (map (\<lambda>c. case c of
                         FailCall q m cs \<Rightarrow> if q = p then [\<lparr>Message = [m], Commits = cs\<rparr>] else []
                       | IgnoreCall _ _ \<Rightarrow> []) calls)"

text \<open>The invariant of the data model: no key of either mapping holds an empty
  sequence.\<close>

definition store_invariant :: "DetectionResults \<Rightarrow> bool" where
  "store_invariant r = ([] |\<notin>| fmran (Failures r) \<and> [] |\<notin>| fmran (ignores r))"

section \<open>Properties of the result store\<close>

subsection \<open>What one call does to the two mappings\<close>

lemma Failures_Fail:
  "fmlookup (Failures (Fail p m c r)) q =
     (if p = q then Some (index_map (Failures r) p @ [\<lparr>Message = [m], Commits = c\<rparr>])
      else fmlookup (Failures r) q)"
  by (simp add: Fail_def NewFaulureData_def index_map_def Let_def split: option.splits)

lemma ignores_Fail: "ignores (Fail p m c r) = ignores r"
  by (simp add: Fail_def Let_def split: option.splits)

lemma ignores_Ignore:
  "fmlookup (ignores (Ignore p d r)) q =
     (if p = q then Some (index_map (ignores r) p @ [d]) else fmlookup (ignores r) q)"
  by (simp add: Ignore_def index_map_def split: option.splits)

lemma Failures_Ignore: "Failures (Ignore p d r) = Failures r"
  by (simp add: Ignore_def split: option.splits)

lemma fmdom'_Failures_Fail: "fmdom' (Failures (Fail p m c r)) = insert p (fmdom' (Failures r))"
  by (simp add: Fail_def Let_def split: option.splits)

lemma fmdom'_ignores_Ignore: "fmdom' (ignores (Ignore p d r)) = insert p (fmdom' (ignores r))"
  by (simp add: Ignore_def split: option.splits)

lemma len_map_pos: "(0 < len_map m) = (fmdom' m \<noteq> {})"
  by (simp add: len_map_def fcard.rep_eq fmdom'_alt_def card_gt_0_iff)

lemma run_calls_Cons: "run_calls (c # calls) r = run_calls calls (apply_call r c)"
  by (simp add: run_calls_def)

subsection \<open>Failures accumulate in call order\<close>

lemma index_map_Failures_apply_call:
  "index_map (Failures (apply_call r c)) p = index_map (Failures r) p @ failures_recorded p [c]"
  by (cases c) (simp_all add: index_map_def Failures_Fail Failures_Ignore failures_recorded_def)

lemma failures_recorded_Cons:
  "failures_recorded p (c # calls) = failures_recorded p [c] @ failures_recorded p calls"
  by (simp add: failures_recorded_def)

text \<open>Whatever the run does on other paths, and whatever it ignores, the failures of a path
  are those it had, followed by those the run recorded for it.\<close>

lemma index_map_Failures_run_calls:
  "index_map (Failures (run_calls calls r)) p = index_map (Failures r) p @ failures_recorded p calls"
proof (induction calls arbitrary: r)
  case Nil
  show ?case by (simp add: run_calls_def failures_recorded_def)
next
  case (Cons c calls)
  have "index_map (Failures (run_calls (c # calls) r)) p
          = index_map (Failures (apply_call r c)) p @ failures_recorded p calls"
    unfolding run_calls_Cons by (rule Cons.IH)
  also have "\<dots> = index_map (Failures r) p @ failures_recorded p (c # calls)"
    by (simp add: index_map_Failures_apply_call failures_recorded_Cons [of p c calls])
  finally show ?case .
qed

lemma failures_recorded_same_path:
  "failures_recorded path (map (\<lambda>(message, commits). FailCall path message commits) calls)
     = map (\<lambda>(message, commits). \<lparr>Message = [message], Commits = commits\<rparr>) calls"
  by (induction calls) (auto simp: failures_recorded_def)

text \<open>
  Claim C1. For every sequence of \<open>Fail(path, message, commits)\<close> calls on the same path,
  \<open>GetFailures(path)\<close> returns the concatenation, in call order, of the supplied data: one
  \<open>FailureData\<close> per call, holding the message as a one-element message sequence and the
  supplied commits. Nothing recorded before is overwritten or moved: run on any store, the
  calls leave what \<open>GetFailures(path)\<close> returned before as a prefix; run on the empty
  store, the result is exactly the data of the calls.
\<close>

theorem GetFailures_after_Fail_calls:
  "fst (GetFailures path
          (run_calls (map (\<lambda>(message, commits). FailCall path message commits) calls) r))
     = fst (GetFailures path r)
         @ map (\<lambda>(message, commits). \<lparr>Message = [message], Commits = commits\<rparr>) calls
   \<and> fst (GetFailures path
          (run_calls (map (\<lambda>(message, commits). FailCall path message commits) calls)
             NewDetectionResults))
     = map (\<lambda>(message, commits). \<lparr>Message = [message], Commits = commits\<rparr>) calls"
  by (simp add: GetFailures_def index_map_Failures_run_calls failures_recorded_same_path)
    (simp add: index_map_def NewDetectionResults_def)

subsection \<open>The keys of the mappings after a run\<close>

lemma fmdom'_Failures_apply_call:
  "fmdom' (Failures (apply_call r c)) = fmdom' (Failures r) \<union> {p. fails_on p c}"
  by (cases c) (auto simp: fmdom'_Failures_Fail Failures_Ignore)

lemma fmdom'_ignores_apply_call:
  "fmdom' (ignores (apply_call r c)) = fmdom' (ignores r) \<union> {p. ignores_on p c}"
  by (cases c) (auto simp: fmdom'_ignores_Ignore ignores_Fail)

lemma fmdom'_Failures_run_calls:
  "fmdom' (Failures (run_calls calls r)) = fmdom' (Failures r) \<union> {p. \<exists>c\<in>set calls. fails_on p c}"
proof (induction calls arbitrary: r)
  case Nil
  show ?case by (simp add: run_calls_def)
next
  case (Cons c calls)
  show ?case
    unfolding run_calls_Cons Cons.IH fmdom'_Failures_apply_call by auto
qed

lemma fmdom'_ignores_run_calls:
  "fmdom' (ignores (run_calls calls r)) = fmdom' (ignores r) \<union> {p. \<exists>c\<in>set calls. ignores_on p c}"
proof (induction calls arbitrary: r)
  case Nil
  show ?case by (simp add: run_calls_def)
next
  case (Cons c calls)
  show ?case
    unfolding run_calls_Cons Cons.IH fmdom'_ignores_apply_call by auto
qed

lemma is_FailCall_iff: "is_FailCall c = (\<exists>p. fails_on p c)"
  by (cases c) simp_all

lemma HasFailures_run_calls:
  "HasFailures (run_calls calls NewDetectionResults) = (\<exists>c\<in>set calls. is_FailCall c)"
proof -
  have "HasFailures (run_calls calls NewDetectionResults)
          = (fmdom' (Failures (run_calls calls NewDetectionResults)) \<noteq> {})"
    by (simp add: HasFailures_def len_map_pos)
  also have "\<dots> = (\<exists>c\<in>set calls. is_FailCall c)"
    by (auto simp: fmdom'_Failures_run_calls NewDetectionResults_def is_FailCall_iff)
  finally show ?thesis .
qed

text \<open>
  Claim C8. After any sequence of \<open>Fail\<close> and \<open>Ignore\<close> calls on a freshly created store,
  \<open>HasFailures()\<close> is true if and only if at least one of the calls was a \<open>Fail\<close>, on
  whatever path; \<open>Successful()\<close> is the negation of \<open>HasFailures()\<close>; so a run of
  ignores only is successful.
\<close>

theorem HasFailures_iff_some_Fail:
  "HasFailures (run_calls calls NewDetectionResults) = (\<exists>c\<in>set calls. is_FailCall c)
   \<and> Successful (run_calls calls NewDetectionResults)
       = (\<not> HasFailures (run_calls calls NewDetectionResults))
   \<and> ((\<forall>c\<in>set calls. \<not> is_FailCall c) \<longrightarrow> Successful (run_calls calls NewDetectionResults))"
  by (simp add: HasFailures_run_calls Successful_def)

theorem HasFailures_iff_some_Fail_witness:
  "\<not> is_FailCall (IgnoreCall ''notes.md'' ''filecontent'')
   \<and> \<not> is_FailCall (IgnoreCall ''a.txt'' ''filename'')
   \<and> Successful (run_calls [IgnoreCall ''notes.md'' ''filecontent'',
                            IgnoreCall ''a.txt'' ''filename''] NewDetectionResults)
   \<and> \<not> HasFailures (run_calls [IgnoreCall ''notes.md'' ''filecontent'',
                               IgnoreCall ''a.txt'' ''filename''] NewDetectionResults)
   \<and> HasFailures (run_calls [IgnoreCall ''notes.md'' ''filecontent'',
                             FailCall ''a.txt'' ''secret'' []] NewDetectionResults)
   \<and> \<not> Successful (run_calls [IgnoreCall ''notes.md'' ''filecontent'',
                              FailCall ''a.txt'' ''secret'' []] NewDetectionResults)"
  using HasFailures_iff_some_Fail
          [of "[IgnoreCall ''notes.md'' ''filecontent'', IgnoreCall ''a.txt'' ''filename'']"]
        HasFailures_iff_some_Fail
          [of "[IgnoreCall ''notes.md'' ''filecontent'', FailCall ''a.txt'' ''secret'' []]"]
  by simp

subsection \<open>The invariant of the store\<close>

lemma store_invariant_iff:
  "store_invariant r
     = (\<forall>p. fmlookup (Failures r) p \<noteq> Some [] \<and> fmlookup (ignores r) p \<noteq> Some [])"
  by (auto simp: store_invariant_def fmlookup_ran_iff)

lemma store_invariant_New: "store_invariant NewDetectionResults"
  by (simp add: store_invariant_def NewDetectionResults_def)

lemma store_invariant_Fail: "store_invariant r \<Longrightarrow> store_invariant (Fail p m c r)"
  by (simp add: store_invariant_iff Failures_Fail ignores_Fail)

lemma store_invariant_Ignore: "store_invariant r \<Longrightarrow> store_invariant (Ignore p d r)"
  by (simp add: store_invariant_iff ignores_Ignore Failures_Ignore)

lemma store_invariant_apply_call: "store_invariant r \<Longrightarrow> store_invariant (apply_call r c)"
  by (cases c) (simp_all add: store_invariant_Fail store_invariant_Ignore)

lemma store_invariant_run_calls: "store_invariant r \<Longrightarrow> store_invariant (run_calls calls r)"
  by (induction calls arbitrary: r) (simp_all add: run_calls_def store_invariant_apply_call)

text \<open>
  Claim C9. The invariant holds of the empty store and every operation preserves it, so it
  holds after every run on a store created empty: a path is a key of the failures mapping
  only if (indeed exactly if) a \<open>Fail\<close> call recorded a failure for it, and the sequence
  under a key of the failures mapping is never empty; the same for the ignores mapping and
  the \<open>Ignore\<close> calls.
\<close>

theorem store_invariant_preserved:
  "store_invariant NewDetectionResults
   \<and> (store_invariant r \<longrightarrow>
        store_invariant (Fail p m c r) \<and> store_invariant (Ignore p d r)
        \<and> store_invariant (snd (GetFailures p r)))
   \<and> store_invariant (run_calls calls NewDetectionResults)
   \<and> (q \<in> fmdom' (Failures (run_calls calls NewDetectionResults))
        \<longleftrightarrow> (\<exists>c\<in>set calls. fails_on q c))
   \<and> fmlookup (Failures (run_calls calls NewDetectionResults)) q \<noteq> Some []
   \<and> (q \<in> fmdom' (ignores (run_calls calls NewDetectionResults))
        \<longleftrightarrow> (\<exists>c\<in>set calls. ignores_on q c))
   \<and> fmlookup (ignores (run_calls calls NewDetectionResults)) q \<noteq> Some []"
proof -
  have inv: "store_invariant (run_calls calls NewDetectionResults)"
    by (rule store_invariant_run_calls [OF store_invariant_New])
  have keys: "fmdom' (Failures NewDetectionResults) = {}" "fmdom' (ignores NewDetectionResults) = {}"
    by (simp_all add: NewDetectionResults_def)
  show ?thesis
    using inv store_invariant_iff [of "run_calls calls NewDetectionResults"]
    by (simp add: store_invariant_New store_invariant_Fail store_invariant_Ignore
        GetFailures_def fmdom'_Failures_run_calls fmdom'_ignores_run_calls keys)
qed

theorem store_invariant_preserved_witness:
  "store_invariant example_store
   \<and> store_invariant (Fail ''notes.md'' ''Private key'' [''abc123''] example_store)
   \<and> store_invariant (Ignore ''notes.md'' ''filesize'' example_store)
   \<and> store_invariant (snd (GetFailures ''notes.md'' example_store))"
proof -
  have inv: "store_invariant example_store"
    by (simp add: store_invariant_iff example_store_def run_calls_def Failures_Fail
        Failures_Ignore ignores_Fail ignores_Ignore NewDetectionResults_def)
  show ?thesis
    using inv
      store_invariant_preserved
        [of example_store "''notes.md''" "''Private key''" "[''abc123'']" "''filesize''"]
    by simp
qed

text \<open>
  Claim C10. \<open>GetFailures(path)\<close> for a path with no entry in the failures mapping returns
  the empty sequence, and no call of \<open>GetFailures\<close> changes the store: both mappings are
  after the call what they were before it, so reading a path creates no entry for it.
\<close>

theorem GetFailures_reads_only:
  "(fmlookup (Failures r) path = None \<longrightarrow> fst (GetFailures path r) = [])
   \<and> snd (GetFailures path r) = r
   \<and> Failures (snd (GetFailures path r)) = Failures r
   \<and> ignores (snd (GetFailures path r)) = ignores r
   \<and> fmdom (Failures (snd (GetFailures path r))) = fmdom (Failures r)"
  by (simp add: GetFailures_def index_map_def)

theorem GetFailures_reads_only_witness:
  "fmlookup (Failures example_store) ''notes.md'' = None
   \<and> fst (GetFailures ''notes.md'' example_store) = []
   \<and> snd (GetFailures ''notes.md'' example_store) = example_store
   \<and> ''notes.md'' |\<notin>| fmdom (Failures (snd (GetFailures ''notes.md'' example_store)))"
proof -
  have absent: "fmlookup (Failures example_store) ''notes.md'' = None"
    by (simp add: example_store_def run_calls_def Failures_Fail Failures_Ignore
        NewDetectionResults_def)
  then show ?thesis
    using GetFailures_reads_only [of example_store "''notes.md''"]
    by (simp add: fmdom_notI)
qed

section \<open>Properties of the report\<close>

subsection \<open>The rows of a path\<close>

lemma ReportFileFailures_messages_eq:
  "ReportFileFailures_messages p False fd ms data =
     data @ map (\<lambda>m. [p, if 150 < length m then take 150 m @ [CHR 0x0A] @ drop 150 m else m]) ms"
  by (induction ms arbitrary: data) (simp_all add: Let_def)

lemma ReportFileFailures_failures_eq:
  "ReportFileFailures_failures p False fds data =
     data @ concat (map (\<lambda>fd. map (\<lambda>m. [p, if 150 < length m
                                              then take 150 m @ [CHR 0x0A] @ drop 150 m else m])
                                (Message fd)) fds)"
  by (induction fds arbitrary: data) (simp_all add: ReportFileFailures_messages_eq)

lemma ReportFileFailures_eq:
  "ReportFileFailures r p False =
     concat (map (\<lambda>fd. map (\<lambda>m. [p, if 150 < length m
                                      then take 150 m @ [CHR 0x0A] @ drop 150 m else m])
                        (Message fd)) (index_map (Failures r) p))"
  by (simp add: ReportFileFailures_def ReportFileFailures_failures_eq Let_def)

text \<open>
  Claim C3. In the default mode the rows of a path are one row per message of each of its
  failures, in order, and the cell of a message longer than 150 characters is its first 150
  characters, a line break, and the rest of it. For a store with the one failure \<open>m\<close>: if
  \<open>m\<close> is longer than 150, the cell is the 150-character prefix and the remaining suffix
  joined by one line break, and prefix and suffix together are \<open>m\<close>; if \<open>m\<close> has exactly
  151 characters, the prefix has 150 and the suffix 1; if \<open>m\<close> has 150 or fewer, the cell is
  \<open>m\<close> unchanged.
\<close>

theorem ReportFileFailures_splits_after_150:
  "ReportFileFailures r p False =
     concat (map (\<lambda>fd. map (\<lambda>m. [p, if 150 < length m
                                      then take 150 m @ [CHR 0x0A] @ drop 150 m else m])
                        (Message fd)) (fst (GetFailures p r)))
   \<and> (150 < length m \<longrightarrow>
        ReportFileFailures (Fail p m c NewDetectionResults) p False
          = [[p, take 150 m @ [CHR 0x0A] @ drop 150 m]]
        \<and> length (take 150 m) = 150 \<and> take 150 m @ drop 150 m = m)
   \<and> (length m = 151 \<longrightarrow> length (take 150 m) = 150 \<and> length (drop 150 m) = 1)
   \<and> (length m \<le> 150 \<longrightarrow>
        ReportFileFailures (Fail p m c NewDetectionResults) p False = [[p, m]])"
proof -
  have one: "index_map (Failures (Fail p m c NewDetectionResults)) p
               = [\<lparr>Message = [m], Commits = c\<rparr>]"
    by (simp add: index_map_def Failures_Fail NewDetectionResults_def)
  show ?thesis
    by (simp add: ReportFileFailures_eq one GetFailures_def)
qed

theorem ReportFileFailures_splits_after_150_witness:
  "150 < length (replicate 151 CHR ''k'') \<and> length (replicate 151 CHR ''k'') = 151
   \<and> ReportFileFailures (Fail ''secrets.txt'' (replicate 151 CHR ''k'') [] NewDetectionResults)
        ''secrets.txt'' False
      = [[''secrets.txt'', replicate 150 CHR ''k'' @ [CHR 0x0A] @ ''k'']]
   \<and> length ''AWS key detected'' \<le> 150
   \<and> ReportFileFailures (Fail ''secrets.txt'' ''AWS key detected'' [] NewDetectionResults)
        ''secrets.txt'' False
      = [[''secrets.txt'', ''AWS key detected'']]"
  using ReportFileFailures_splits_after_150
          [of NewDetectionResults "''secrets.txt''" "replicate 151 CHR ''k''" "[]"]
        ReportFileFailures_splits_after_150
          [of NewDetectionResults "''secrets.txt''" "''AWS key detected''" "[]"]
  by simp

subsection \<open>The duplicate-free paths\<close>

lemma unique_loop_props:
  "set list = fmdom' keys \<Longrightarrow> distinct list \<Longrightarrow>
     distinct (unique_loop xs keys list) \<and> set (unique_loop xs keys list) = set list \<union> set xs"
proof (induction xs arbitrary: keys list)
  case Nil
  then show ?case by simp
next
  case (Cons entry rest)
  show ?case
  proof (cases "fmlookup keys entry")
    case None
    then have fresh: "entry \<notin> set list"
      using Cons.prems(1) by (simp add: fmdom'_notI)
    have "distinct (unique_loop rest (fmupd entry True keys) (list @ [entry]))
            \<and> set (unique_loop rest (fmupd entry True keys) (list @ [entry]))
                = set (list @ [entry]) \<union> set rest"
      using Cons.prems fresh by (intro Cons.IH) simp_all
    with None show ?thesis by simp
  next
    case (Some b)
    then have seen: "entry \<in> set list"
      using Cons.prems(1) by (simp add: fmdom'I)
    have "distinct (unique_loop rest keys list)
            \<and> set (unique_loop rest keys list) = set list \<union> set rest"
      using Cons.prems by (intro Cons.IH)
    with Some seen show ?thesis by auto
  qed
qed

lemma distinct_unique: "distinct (unique xs)"
  using unique_loop_props [of "[]" fmempty xs] by (simp add: unique_def)

lemma set_unique: "set (unique xs) = set xs"
  using unique_loop_props [of "[]" fmempty xs] by (simp add: unique_def)

subsection \<open>The loops as maps\<close>

lemma Report_Failures_loop_eq:
  "Report_Failures_loop r fo paths data =
     (paths @ fo, data @ concat (map (\<lambda>p. ReportFileFailures r p False) fo))"
  by (induction fo arbitrary: paths data) (simp_all add: Let_def)

lemma Report_ignores_loop_eq: "Report_ignores_loop io paths = paths @ io"
  by (induction io arbitrary: paths) simp_all

lemma suggestTalismanRC_loop_eq:
  "suggestTalismanRC_loop hash ps evs configs =
     (evs @ map (\<lambda>p. HashCalled [p]) ps,
      configs @ map (\<lambda>p. \<lparr>fileName = p, checksum = hash [p], allowedPatterns = []\<rparr>) ps)"
  by (induction ps arbitrary: evs configs)
     (simp_all add: call_CalculateCollectiveHash_def)

lemma suggestTalismanRC_eq:
  "suggestTalismanRC hash marshal ps evs =
     (evs @ map (\<lambda>p. HashCalled [p]) ps
        @ [MarshalCalled \<lparr>fileIgnoreConfigs =
             map (\<lambda>p. \<lparr>fileName = p, checksum = hash [p], allowedPatterns = []\<rparr>) ps\<rparr>],
      fst (marshal \<lparr>fileIgnoreConfigs =
             map (\<lambda>p. \<lparr>fileName = p, checksum = hash [p], allowedPatterns = []\<rparr>) ps\<rparr>))"
  by (simp add: suggestTalismanRC_def suggestTalismanRC_loop_eq call_Marshal_def Let_def
      split: prod.splits)

lemma Report_with_failures:
  "0 < len_map (Failures r) \<Longrightarrow>
   Report hash marshal fo io r =
     ([Printed report_banner,
       Rendered \<lparr>table_header = [''File'', ''Errors''], table_rowLine = True,
                 table_rows = concat (map (\<lambda>p. ReportFileFailures r p False) fo)\<rparr>]
        @ map (\<lambda>p. HashCalled [p]) (unique (fo @ io))
        @ [MarshalCalled \<lparr>fileIgnoreConfigs =
             map (\<lambda>p. \<lparr>fileName = p, checksum = hash [p], allowedPatterns = []\<rparr>)
               (unique (fo @ io))\<rparr>],
      report_note
        @ fst (marshal \<lparr>fileIgnoreConfigs =
             map (\<lambda>p. \<lparr>fileName = p, checksum = hash [p], allowedPatterns = []\<rparr>)
               (unique (fo @ io))\<rparr>)
        @ [CHR 0x0A, CHR 0x0A])"
  by (simp add: Report_def Report_Failures_loop_eq Report_ignores_loop_eq suggestTalismanRC_eq
      Printf_def Render_def AppendBulk_def SetRowLine_def SetHeader_def NewWriter_def Let_def)

lemma Report_without_failures:
  "\<not> 0 < len_map (Failures r) \<Longrightarrow> Report hash marshal fo io r = ([], [])"
  by (simp add: Report_def split: prod.splits)

lemma example_store_has_failures: "0 < len_map (Failures example_store)"
  by (simp add: len_map_pos example_store_def run_calls_def fmdom'_Failures_Fail)

lemma unique_example_paths:
  "unique [''secrets.txt'', ''notes.md'', ''secrets.txt''] = [''secrets.txt'', ''notes.md'']"
  by (simp add: unique_def)

subsection \<open>A run without failures\<close>

text \<open>
  Claim C5. If the failures mapping is empty, \<open>Report()\<close> returns the empty string and
  does nothing else: it prints nothing and renders no table, whatever the ignores mapping
  holds.
\<close>

theorem Report_silent_without_failures:
  "Failures r = fmempty \<Longrightarrow> Report hash marshal fo io r = ([], [])"
  by (simp add: Report_without_failures len_map_def)

theorem Report_silent_without_failures_witness:
  "Failures (run_calls [IgnoreCall ''notes.md'' ''filecontent'', IgnoreCall ''a.txt'' ''filename'',
                        IgnoreCall ''notes.md'' ''filename''] NewDetectionResults) = fmempty
   \<and> HasIgnores (run_calls [IgnoreCall ''notes.md'' ''filecontent'',
                            IgnoreCall ''a.txt'' ''filename'',
                            IgnoreCall ''notes.md'' ''filename''] NewDetectionResults)
   \<and> Report example_hash example_marshal [] [''a.txt'', ''notes.md'']
        (run_calls [IgnoreCall ''notes.md'' ''filecontent'', IgnoreCall ''a.txt'' ''filename'',
                    IgnoreCall ''notes.md'' ''filename''] NewDetectionResults) = ([], [])"
proof -
  have empty:
    "Failures (run_calls [IgnoreCall ''notes.md'' ''filecontent'',
                          IgnoreCall ''a.txt'' ''filename'',
                          IgnoreCall ''notes.md'' ''filename''] NewDetectionResults) = fmempty"
    by (simp add: run_calls_def Failures_Ignore NewDetectionResults_def)
  have ign:
    "HasIgnores (run_calls [IgnoreCall ''notes.md'' ''filecontent'',
                            IgnoreCall ''a.txt'' ''filename'',
                            IgnoreCall ''notes.md'' ''filename''] NewDetectionResults)"
    by (simp add: HasIgnores_def len_map_pos run_calls_def fmdom'_ignores_Ignore)
  show ?thesis
    using empty ign
      Report_silent_without_failures
        [OF empty, of example_hash example_marshal "[]" "[''a.txt'', ''notes.md'']"]
    by simp
qed

subsection \<open>The suggestion\<close>

text \<open>
  Claim C6. For each path of its input, in order, \<open>suggestTalismanRC\<close> calls the checksum
  function once, with the one-element list of that path and never with several paths, and
  builds the record whose \<open>fileName\<close> is the path, whose \<open>checksum\<close> is the digest
  returned and whose \<open>allowedPatterns\<close> is empty; the records go to the encoder in the
  order of the paths. The events of the call are those checksum calls and then the one
  call of the encoder.
\<close>

theorem suggestTalismanRC_one_checksum_per_path:
  "suggestTalismanRC hash marshal filePaths evs =
     (evs @ map (\<lambda>p. HashCalled [p]) filePaths
        @ [MarshalCalled \<lparr>fileIgnoreConfigs =
             map (\<lambda>p. \<lparr>fileName = p, checksum = hash [p], allowedPatterns = []\<rparr>) filePaths\<rparr>],
      fst (marshal \<lparr>fileIgnoreConfigs =
             map (\<lambda>p. \<lparr>fileName = p, checksum = hash [p], allowedPatterns = []\<rparr>) filePaths\<rparr>))"
  by (rule suggestTalismanRC_eq)

text \<open>
  Claim C7. If the encoder fails, \<open>suggestTalismanRC\<close> returns the text the encoder
  produced and nothing of the error (its result has no place for one): the call is what it
  would be with an encoder that produces the same text and succeeds.
\<close>

theorem suggestTalismanRC_swallows_error:
  "(snd (marshal \<lparr>fileIgnoreConfigs =
             map (\<lambda>p. \<lparr>fileName = p, checksum = hash [p], allowedPatterns = []\<rparr>) filePaths\<rparr>)
      = Some err \<longrightarrow>
      snd (suggestTalismanRC hash marshal filePaths evs)
        = fst (marshal \<lparr>fileIgnoreConfigs =
             map (\<lambda>p. \<lparr>fileName = p, checksum = hash [p], allowedPatterns = []\<rparr>) filePaths\<rparr>))
   \<and> suggestTalismanRC hash marshal filePaths evs
       = suggestTalismanRC hash (\<lambda>v. (fst (marshal v), None)) filePaths evs"
  by (simp add: suggestTalismanRC_eq)

theorem suggestTalismanRC_swallows_error_witness:
  "snd (failing_marshal \<lparr>fileIgnoreConfigs =
          map (\<lambda>p. \<lparr>fileName = p, checksum = example_hash [p], allowedPatterns = []\<rparr>)
            [''secrets.txt'', ''notes.md'']\<rparr>) = Some (MarshalError ''cannot marshal'')
   \<and> snd (suggestTalismanRC example_hash failing_marshal [''secrets.txt'', ''notes.md''] [])
       = ''partial''"
proof -
  have failed:
    "snd (failing_marshal \<lparr>fileIgnoreConfigs =
            map (\<lambda>p. \<lparr>fileName = p, checksum = example_hash [p], allowedPatterns = []\<rparr>)
              [''secrets.txt'', ''notes.md'']\<rparr>) = Some (MarshalError ''cannot marshal'')"
    by (simp add: failing_marshal_def)
  with suggestTalismanRC_swallows_error
         [of failing_marshal example_hash "[''secrets.txt'', ''notes.md'']"
             "MarshalError ''cannot marshal''" "[]"]
  have "snd (suggestTalismanRC example_hash failing_marshal [''secrets.txt'', ''notes.md''] [])
          = fst (failing_marshal \<lparr>fileIgnoreConfigs =
              map (\<lambda>p. \<lparr>fileName = p, checksum = example_hash [p], allowedPatterns = []\<rparr>)
                [''secrets.txt'', ''notes.md'']\<rparr>)"
    by blast
  with failed show ?thesis
    by (simp add: failing_marshal_def)
qed

subsection \<open>A run with failures\<close>

text \<open>
  Claim C2, as amended. When failures exist, the string returned by \<open>Report()\<close> is the
  instructional note, followed by the serialized ignore-suggestion block (the string that
  \<open>suggestTalismanRC\<close> returns for the duplicate-free paths, whatever was written before
  it), followed by two line breaks. The banner announcing the report is printed on standard
  output, and the table is rendered there after it; they are the first two events of the
  call and the only output, and neither is part of the returned string.
\<close>

theorem Report_returned_string:
  "HasFailures r \<Longrightarrow>
     snd (Report hash marshal fo io r)
       = report_note @ snd (suggestTalismanRC hash marshal (unique (fo @ io)) evs)
           @ [CHR 0x0A, CHR 0x0A]
     \<and> take 2 (fst (Report hash marshal fo io r))
       = [Printed report_banner,
          Rendered \<lparr>table_header = [''File'', ''Errors''], table_rowLine = True,
                    table_rows = concat (map (\<lambda>p. ReportFileFailures r p False) fo)\<rparr>]
     \<and> (\<forall>e\<in>set (drop 2 (fst (Report hash marshal fo io r))).
           \<forall>s t. e \<noteq> Printed s \<and> e \<noteq> Rendered t)"
  by (auto simp add: Report_with_failures HasFailures_def suggestTalismanRC_eq)

theorem Report_returned_string_witness:
  "HasFailures example_store
   \<and> snd (Report example_hash example_marshal [''secrets.txt''] [''notes.md'', ''secrets.txt'']
            example_store)
       = report_note @ ''secrets.txt:#secrets.txt;notes.md:#notes.md;'' @ [CHR 0x0A, CHR 0x0A]
   \<and> take 2 (fst (Report example_hash example_marshal [''secrets.txt'']
                     [''notes.md'', ''secrets.txt''] example_store))
       = [Printed report_banner,
          Rendered \<lparr>table_header = [''File'', ''Errors''], table_rowLine = True,
                    table_rows = [[''secrets.txt'', ''AWS key detected''],
                                  [''secrets.txt'', ''High entropy string'']]\<rparr>]"
proof -
  have failures: "HasFailures example_store"
    by (simp add: HasFailures_def example_store_has_failures)
  have rows: "ReportFileFailures example_store ''secrets.txt'' False
                = [[''secrets.txt'', ''AWS key detected''],
                   [''secrets.txt'', ''High entropy string'']]"
    by (simp add: ReportFileFailures_eq index_map_def example_store_def run_calls_def
        Failures_Fail Failures_Ignore NewDetectionResults_def)
  show ?thesis
    using failures
      Report_returned_string [OF failures, of example_hash example_marshal "[''secrets.txt'']"
        "[''notes.md'', ''secrets.txt'']" "[]"]
    by (simp add: rows unique_example_paths suggestTalismanRC_eq example_marshal_def
        example_hash_def)
qed

text \<open>The claim as it was stated fails on the store of the example: the returned string is
  not the banner followed by the note and the block, and does not begin with the banner.\<close>

theorem Report_returns_banner_counterexample:
  "snd (Report example_hash example_marshal [''secrets.txt''] [''notes.md'', ''secrets.txt'']
          example_store)
     \<noteq> report_banner @ report_note
         @ snd (suggestTalismanRC example_hash example_marshal [''secrets.txt'', ''notes.md''] [])
   \<and> take (length report_banner)
        (snd (Report example_hash example_marshal [''secrets.txt''] [''notes.md'', ''secrets.txt'']
                example_store))
     \<noteq> report_banner"
proof -
  have returned:
    "snd (Report example_hash example_marshal [''secrets.txt''] [''notes.md'', ''secrets.txt'']
            example_store)
       = report_note @ ''secrets.txt:#secrets.txt;notes.md:#notes.md;'' @ [CHR 0x0A, CHR 0x0A]"
    by (simp add: Report_with_failures [OF example_store_has_failures] unique_example_paths
        example_marshal_def example_hash_def)
  show ?thesis
    unfolding returned
    by (simp add: report_note_def report_banner_def)
qed

lemma set_range_orders:
  "range_order (Failures r) fo \<Longrightarrow> range_order (ignores r) io \<Longrightarrow>
     set (unique (fo @ io)) = fmdom' (Failures r) \<union> fmdom' (ignores r)"
  by (simp add: set_unique range_order_def)

text \<open>
  Claim C4. When \<open>Report()\<close> produces the suggestion block, that is when failures exist, and
  its two loops visit the keys of the two mappings, each once and in any order, the paths
  of the records given to the encoder, and serialized in the returned string, have no
  duplicates and are, as a set, the union of the keys of the failures mapping and the keys
  of the ignores mapping, however many failures or ignores a path has.
\<close>

theorem Report_suggests_union_of_keys:
  assumes "HasFailures r" and "range_order (Failures r) fo" and "range_order (ignores r) io"
  shows "last (fst (Report hash marshal fo io r))
           = MarshalCalled \<lparr>fileIgnoreConfigs =
               map (\<lambda>p. \<lparr>fileName = p, checksum = hash [p], allowedPatterns = []\<rparr>)
                 (unique (fo @ io))\<rparr>
         \<and> snd (Report hash marshal fo io r)
           = report_note
               @ fst (marshal \<lparr>fileIgnoreConfigs =
                   map (\<lambda>p. \<lparr>fileName = p, checksum = hash [p], allowedPatterns = []\<rparr>)
                     (unique (fo @ io))\<rparr>)
               @ [CHR 0x0A, CHR 0x0A]
         \<and> distinct (unique (fo @ io))
         \<and> set (unique (fo @ io)) = fmdom' (Failures r) \<union> fmdom' (ignores r)"
proof -
  have "0 < len_map (Failures r)"
    using assms(1) by (simp add: HasFailures_def)
  then show ?thesis
    using assms(2,3) by (simp add: Report_with_failures distinct_unique set_range_orders)
qed

theorem Report_suggests_union_of_keys_witness:
  "HasFailures example_store
   \<and> range_order (Failures example_store) [''secrets.txt'']
   \<and> range_order (ignores example_store) [''notes.md'', ''secrets.txt'']
   \<and> fmdom' (Failures example_store) \<union> fmdom' (ignores example_store)
       = {''secrets.txt'', ''notes.md''}
   \<and> last (fst (Report example_hash example_marshal [''secrets.txt'']
                   [''notes.md'', ''secrets.txt''] example_store))
       = MarshalCalled \<lparr>fileIgnoreConfigs =
           [\<lparr>fileName = ''secrets.txt'', checksum = ''#secrets.txt'', allowedPatterns = []\<rparr>,
            \<lparr>fileName = ''notes.md'', checksum = ''#notes.md'', allowedPatterns = []\<rparr>]\<rparr>"
proof -
  have failures: "HasFailures example_store"
    by (simp add: HasFailures_def example_store_has_failures)
  have fo: "range_order (Failures example_store) [''secrets.txt'']"
    by (simp add: range_order_def example_store_def run_calls_def fmdom'_Failures_Fail
        Failures_Ignore NewDetectionResults_def)
  have io: "range_order (ignores example_store) [''notes.md'', ''secrets.txt'']"
    by (auto simp add: range_order_def example_store_def run_calls_def fmdom'_ignores_Ignore
        ignores_Fail NewDetectionResults_def)
  show ?thesis
    using failures fo io
      Report_suggests_union_of_keys [OF failures fo io, of example_hash example_marshal]
    by (auto simp add: unique_example_paths example_hash_def)
qed

end
